theory Spec2Isabelle
  imports Complex_Main "HOL-Library.Sublist" "HOL-Library.Product_Lexorder"
begin

section \<open>Column values\<close>

text \<open>
  The numeric columns of the trip file (\<open>fare_amount\<close>, \<open>tip_amount\<close>,
  \<open>total_amount\<close>, \<open>trip_distance\<close>) are float64 columns. A cell is a finite
  number, one of the two infinities, or NaN (which is also how pandas stores a missing
  number). Finite arithmetic is modelled exactly: rounding, overflow and the sign of
  zero are not represented. The special values follow IEEE 754 as numpy applies it.
\<close>

datatype float64 = Fin real | PInf | NInf | NaN

text \<open>Elementwise \<open>/\<close> of two float64 columns (numpy \<open>true_divide\<close>).\<close>

fun fdiv :: "float64 \<Rightarrow> float64 \<Rightarrow> float64" where
  "fdiv NaN _ = NaN"
| "fdiv _ NaN = NaN"
| "fdiv (Fin a) (Fin b) =
     (if b = 0 then (if a = 0 then NaN else if 0 < a then PInf else NInf)
      else Fin (a / b))"
| "fdiv (Fin a) PInf = Fin 0"
| "fdiv (Fin a) NInf = Fin 0"
| "fdiv PInf (Fin b) = (if b < 0 then NInf else PInf)"
| "fdiv NInf (Fin b) = (if b < 0 then PInf else NInf)"
| "fdiv PInf PInf = NaN"
| "fdiv PInf NInf = NaN"
| "fdiv NInf PInf = NaN"
| "fdiv NInf NInf = NaN"

text \<open>Elementwise \<open>*\<close> of a float64 column and a scalar.\<close>

fun fmul :: "float64 \<Rightarrow> float64 \<Rightarrow> float64" where
  "fmul NaN _ = NaN"
| "fmul _ NaN = NaN"
| "fmul (Fin a) (Fin b) = Fin (a * b)"
| "fmul (Fin a) PInf = (if a = 0 then NaN else if 0 < a then PInf else NInf)"
| "fmul (Fin a) NInf = (if a = 0 then NaN else if 0 < a then NInf else PInf)"
| "fmul PInf (Fin b) = (if b = 0 then NaN else if 0 < b then PInf else NInf)"
| "fmul NInf (Fin b) = (if b = 0 then NaN else if 0 < b then NInf else PInf)"
| "fmul PInf PInf = PInf"
| "fmul PInf NInf = NInf"
| "fmul NInf PInf = NInf"
| "fmul NInf NInf = PInf"

text \<open>Elementwise \<open><\<close>; any comparison with NaN is False. \<open>x > c\<close> is \<open>fless c x\<close>.\<close>

fun fless :: "float64 \<Rightarrow> float64 \<Rightarrow> bool" where
  "fless NaN _ = False"
| "fless _ NaN = False"
| "fless (Fin a) (Fin b) = (a < b)"
| "fless (Fin a) PInf = True"
| "fless (Fin a) NInf = False"
| "fless PInf _ = False"
| "fless NInf NInf = False"
| "fless NInf _ = True"

text \<open>\<open>Series.fillna(v)\<close>: NaN cells become \<open>v\<close>; infinities are not NaN and stay.\<close>

fun fillna :: "float64 \<Rightarrow> float64 \<Rightarrow> float64" where
  "fillna v NaN = v"
| "fillna v x = x"

section \<open>Rows and frames\<close>

text \<open>
  A timestamp is a number of seconds since 1970-01-01 00:00 (a Thursday), without time
  zone; \<open>None\<close> is NaT. The columns read from the parquet file:
\<close>

record raw_trip =
  tpep_pickup_datetime :: "int option"
  tpep_dropoff_datetime :: "int option"
  fare_amount :: float64
  tip_amount :: float64
  total_amount :: float64
  trip_distance :: float64
  PULocationID :: int
  payment_type :: "int option"

text \<open>
  The columns \<open>load_data\<close> adds. \<open>pickup_hour\<close>, \<open>pickup_day\<close> and \<open>pickup_date\<close>
  are \<open>None\<close> (NaN, NaT) where the pickup timestamp is NaT. A date is a number of days
  since 1970-01-01.
\<close>

record trip = raw_trip +
  pickup_hour :: "nat option"
  pickup_day :: "nat option"
  pickup_date :: "int option"
  trip_duration_min :: float64
  tip_pct :: float64

text \<open>The column added at module level after loading (lines 62-63).\<close>

record named_trip = trip +
  payment_name :: string

text \<open>The column added to the working subset before the day/hour chart (line 154).\<close>

record dow_trip = named_trip +
  pickup_day_of_week :: "nat option"

text \<open>
  A DataFrame is the list of its rows in order, each with its index label.
\<close>

type_synonym 'r frame = "(nat \<times> 'r) list"

text \<open>\<open>df[mask]\<close>: the rows whose mask entry is True, labels kept.\<close>

definition mask_rows :: "('r \<Rightarrow> bool) \<Rightarrow> 'r frame \<Rightarrow> 'r frame" where
  "mask_rows p f = filter (\<lambda>(i, r). p r) f"

text \<open>\<open>df.reset_index(drop=True)\<close>: labels renumbered 0, 1, 2, ...\<close>

definition reset_index :: "'r frame \<Rightarrow> 'r frame" where
  "reset_index f = zip [0..<length f] (map snd f)"

text \<open>\<open>pd.read_parquet\<close> gives the file's rows a RangeIndex.\<close>

definition read_parquet :: "raw_trip list \<Rightarrow> raw_trip frame" where
  "read_parquet rows = zip [0..<length rows] rows"

section \<open>load_data: derived columns and cleaning (lines 26-49)\<close>

definition dt_hour :: "int option \<Rightarrow> nat option" where
  "dt_hour t = map_option (\<lambda>s. nat ((s div 3600) mod 24)) t"

definition dt_dayofweek :: "int option \<Rightarrow> nat option" where
  "dt_dayofweek t = map_option (\<lambda>s. nat ((s div 86400 + 3) mod 7)) t"

definition dt_date :: "int option \<Rightarrow> int option" where
  "dt_date t = map_option (\<lambda>s. s div 86400) t"

text \<open>\<open>(dropoff - pickup).dt.total_seconds() / 60\<close>; NaN when either end is NaT.\<close>

definition duration_min :: "int option \<Rightarrow> int option \<Rightarrow> float64" where
  "duration_min dropoff pickup =
     (case (dropoff, pickup) of
        (Some d, Some p) \<Rightarrow> fdiv (Fin (real_of_int (d - p))) (Fin 60)
      | _ \<Rightarrow> NaN)"

text \<open>Lines 36-42, on one row.\<close>

definition derive_row :: "raw_trip \<Rightarrow> trip" where
  "derive_row r = raw_trip.extend r
     (trip.fields
        (dt_hour (tpep_pickup_datetime r))
        (dt_dayofweek (tpep_pickup_datetime r))
        (dt_date (tpep_pickup_datetime r))
        (duration_min (tpep_dropoff_datetime r) (tpep_pickup_datetime r))
        (fillna (Fin 0) (fmul (fdiv (tip_amount r) (fare_amount r)) (Fin 100))))"

definition derive_columns :: "raw_trip frame \<Rightarrow> trip frame" where
  "derive_columns f = map (\<lambda>(i, r). (i, derive_row r)) f"

text \<open>Lines 45-47: three boolean-mask selections in sequence.\<close>

definition fare_ok :: "'a trip_scheme \<Rightarrow> bool" where
  "fare_ok r \<longleftrightarrow> fless (Fin 0) (fare_amount r) \<and> fless (fare_amount r) (Fin 200)"

definition distance_ok :: "'a trip_scheme \<Rightarrow> bool" where
  "distance_ok r \<longleftrightarrow> fless (Fin 0) (trip_distance r) \<and> fless (trip_distance r) (Fin 50)"

definition duration_ok :: "'a trip_scheme \<Rightarrow> bool" where
  "duration_ok r \<longleftrightarrow>
     fless (Fin 1) (trip_duration_min r) \<and> fless (trip_duration_min r) (Fin 180)"

definition clean_rows :: "'a trip_scheme frame \<Rightarrow> 'a trip_scheme frame" where
  "clean_rows f = mask_rows duration_ok (mask_rows distance_ok (mask_rows fare_ok f))"

text \<open>
  \<open>load_data\<close> on the rows of the parquet file. The missing-file branch
  (\<open>st.error\<close>, \<open>st.stop\<close>) ends the script before any row exists and is not part
  of this function.
\<close>

definition load_data :: "raw_trip list \<Rightarrow> trip frame" where
  "load_data rows = reset_index (clean_rows (derive_columns (read_parquet rows)))"

section \<open>Payment names and the filter (lines 56-79)\<close>

definition payment_map :: "int \<rightharpoonup> string" where
  "payment_map = [1 \<mapsto> ''Credit Card'', 2 \<mapsto> ''Cash'', 3 \<mapsto> ''No Charge'', 4 \<mapsto> ''Dispute'']"

text \<open>
  \<open>df["payment_type"].map(payment_map)\<close> gives NaN for a missing code and for a code
  that is not a key; \<open>fillna("Unknown")\<close> then names those cells.
\<close>

definition payment_name_of :: "int option \<Rightarrow> string" where
  "payment_name_of c =
     (case Option.bind c payment_map of None \<Rightarrow> ''Unknown'' | Some s \<Rightarrow> s)"

definition decode_row :: "trip \<Rightarrow> named_trip" where
  "decode_row r = trip.extend r (named_trip.fields (payment_name_of (payment_type r)))"

definition decode_payment :: "trip frame \<Rightarrow> named_trip frame" where
  "decode_payment f = map (\<lambda>(i, r). (i, decode_row r)) f"

text \<open>\<open>Series.unique()\<close>: the distinct values in order of first appearance.\<close>

definition unique :: "'a list \<Rightarrow> 'a list" where
  "unique xs = rev (remdups (rev xs))"

definition payment_options_default :: "'a named_trip_scheme frame \<Rightarrow> string list" where
  "payment_options_default f = unique (map (\<lambda>(i, r). payment_name r) f)"

text \<open>
  \<open>df["pickup_date"].min()\<close> and \<open>.max()\<close>: NaT cells are skipped; the result is
  \<open>None\<close> (NaN) when no date is left.
\<close>

definition min_date :: "'a trip_scheme frame \<Rightarrow> int option" where
  "min_date f =
     (case List.map_filter (\<lambda>(i, r). pickup_date r) f of
        [] \<Rightarrow> None | d # ds \<Rightarrow> Some (fold min ds d))"

definition max_date :: "'a trip_scheme frame \<Rightarrow> int option" where
  "max_date f =
     (case List.map_filter (\<lambda>(i, r). pickup_date r) f of
        [] \<Rightarrow> None | d # ds \<Rightarrow> Some (fold max ds d))"

text \<open>
  A comparison of a cell with a scalar; a NaN or NaT cell compares False.
\<close>

definition cell_ge :: "('a::linorder) option \<Rightarrow> 'a \<Rightarrow> bool" where
  "cell_ge c v = (case c of None \<Rightarrow> False | Some x \<Rightarrow> v \<le> x)"

definition cell_le :: "('a::linorder) option \<Rightarrow> 'a \<Rightarrow> bool" where
  "cell_le c v = (case c of None \<Rightarrow> False | Some x \<Rightarrow> x \<le> v)"

text \<open>
  Lines 75-79. \<open>date_range\<close> is the pair of dates of the date input,
  \<open>hour_range\<close> the pair of the slider, \<open>payment_options\<close> the multiselect's list.
\<close>

definition filtered ::
  "'a named_trip_scheme frame \<Rightarrow> int \<times> int \<Rightarrow> nat \<times> nat \<Rightarrow> string list
     \<Rightarrow> 'a named_trip_scheme frame" where
  "filtered df date_range hour_range payment_options =
     mask_rows (\<lambda>r.
        cell_ge (pickup_date r) (fst date_range) \<and> cell_le (pickup_date r) (snd date_range) \<and>
        cell_ge (pickup_hour r) (fst hour_range) \<and> cell_le (pickup_hour r) (snd hour_range) \<and>
        payment_name r \<in> set payment_options) df"

section \<open>Chart tables\<close>

text \<open>
  \<open>groupby(keys).size().reset_index(name=...)\<close>: one row per distinct key, in
  ascending key order, with the number of rows that have the key. Rows whose key
  is NaN are left out before this function is applied.
\<close>

definition group_size :: "('k::linorder) list \<Rightarrow> ('k \<times> nat) list" where
  "group_size ks = map (\<lambda>k. (k, count_list ks k)) (sort (remdups ks))"

subsection \<open>Top pickup zones (lines 101-105)\<close>

record zone =
  LocationID :: int
  Borough :: string
  Zone :: string

record zone_row =
  zr_PULocationID :: int
  trips :: nat
  zr_zone :: zone

text \<open>
  \<open>merge(zone_lookup, left_on="PULocationID", right_on="LocationID")\<close>: an inner
  join in the order of the left rows; a left row is repeated for every zone row
  with its key and dropped when there is none.
\<close>

definition merge_zones :: "(int \<times> nat) list \<Rightarrow> zone list \<Rightarrow> zone_row list" where
  "merge_zones left zone_lookup =
     concat (map (\<lambda>(k, n).
        map (\<lambda>z. \<lparr>zr_PULocationID = k, trips = n, zr_zone = z\<rparr>)
            (filter (\<lambda>z. LocationID z = k) zone_lookup)) left)"

text \<open>
  \<open>sort_values("trips", ascending=False)\<close>: the rows are reversed, sorted
  ascending and reversed again. The order among rows with equal counts is that of a
  stable sort here; pandas' default sort does not promise one, and no statement
  below depends on it.
\<close>

definition sort_trips_desc :: "zone_row list \<Rightarrow> zone_row list" where
  "sort_trips_desc xs = rev (sort_key trips (rev xs))"

definition top_zones :: "'a trip_scheme frame \<Rightarrow> zone list \<Rightarrow> zone_row list" where
  "top_zones f zone_lookup =
     take 10 (sort_trips_desc
       (merge_zones (group_size (map (\<lambda>(i, r). PULocationID r) f)) zone_lookup))"

subsection \<open>Trips by day of week and hour (lines 153-168)\<close>

datatype error = KeyError

definition add_day_of_week :: "named_trip \<Rightarrow> dow_trip" where
  "add_day_of_week r =
     named_trip.extend r (dow_trip.fields (dt_dayofweek (tpep_pickup_datetime r)))"

definition with_day_of_week :: "named_trip frame \<Rightarrow> dow_trip frame" where
  "with_day_of_week f = map (\<lambda>(i, r). (i, add_day_of_week r)) f"

text \<open>The rows of \<open>bar_data\<close>: day of week, hour, trips. Rows with a NaN key form no group.\<close>

definition bar_data :: "dow_trip frame \<Rightarrow> (nat \<times> nat \<times> nat) list" where
  "bar_data f =
     map (\<lambda>((d, h), n). (d, h, n))
       (group_size (List.map_filter
          (\<lambda>(i, r). case (pickup_day_of_week r, pickup_hour r) of
                       (Some d, Some h) \<Rightarrow> Some (d, h) | _ \<Rightarrow> None) f))"

definition weekday_order :: "nat \<rightharpoonup> string" where
  "weekday_order = [0 \<mapsto> ''Monday'', 1 \<mapsto> ''Tuesday'', 2 \<mapsto> ''Wednesday'', 3 \<mapsto> ''Thursday'',
                    4 \<mapsto> ''Friday'', 5 \<mapsto> ''Saturday'', 6 \<mapsto> ''Sunday'']"

definition days_order :: "string list" where
  "days_order = [''Monday'', ''Tuesday'', ''Wednesday'', ''Thursday'', ''Friday'',
                 ''Saturday'', ''Sunday'']"

text \<open>
  \<open>pivot(index="pickup_hour", columns="pickup_day_name", values="trips")\<close>: the
  row labels are the distinct hours of \<open>bar_data\<close> in ascending order, the column
  labels its distinct day names; a cell holds the trips of the row of \<open>bar_data\<close>
  with that hour and day name and is NaN when there is none; \<open>fillna(0)\<close> makes
  it 0. \<open>bar_pivot[days_order]\<close> selects the seven columns in that order and
  raises KeyError when one of the labels is not a column.
\<close>

definition pivot_cell :: "(nat \<times> nat \<times> nat) list \<Rightarrow> nat \<Rightarrow> string \<Rightarrow> nat option" where
  "pivot_cell bd h name =
     map_option (\<lambda>(d, h', n). n)
       (find (\<lambda>(d, h', n). h' = h \<and> weekday_order d = Some name) bd)"

definition pivot_days :: "(nat \<times> nat \<times> nat) list \<Rightarrow> error + (nat \<times> nat list) list" where
  "pivot_days bd =
     (let index = sort (remdups (map (\<lambda>(d, h, n). h) bd));
          columns = remdups (map (\<lambda>(d, h, n). weekday_order d) bd)
      in if list_all (\<lambda>name. Some name \<in> set columns) days_order
         then Inr (map (\<lambda>h. (h, map (\<lambda>name. case pivot_cell bd h name of
                                                None \<Rightarrow> 0 | Some n \<Rightarrow> n) days_order)) index)
         else Inl KeyError)"

text \<open>
  The table \<open>bar_pivot\<close> of a working subset: a list of rows, each the hour that
  labels it and its seven cells from Monday to Sunday.
\<close>

definition bar_pivot :: "named_trip frame \<Rightarrow> error + (nat \<times> nat list) list" where
  "bar_pivot f = pivot_days (bar_data (with_day_of_week f))"

section \<open>The script as statements on a store\<close>

text \<open>
  A DataFrame is an object: \<open>df[col] = ...\<close> changes the object in place, while
  \<open>df[mask]\<close> makes a new one. The store is the list of the objects made so far, an
  address is a position in it. An object is a frame together with the columns it has.
\<close>

datatype obj = Loaded "trip frame" | Named "named_trip frame" | WithDay "dow_trip frame"

record env =
  heap :: "obj list"
  df_ref :: nat
  filtered_ref :: "nat option"

text \<open>
  Line 52 under the decorator of line 25: \<open>st.cache_data\<close> keeps the value
  \<open>load_data\<close> returned (address 0) and hands every caller a copy of it (address 1,
  bound to \<open>df\<close>).
\<close>

definition cache_ref :: nat where
  "cache_ref = 0"

definition call_load_data :: "raw_trip list \<Rightarrow> env" where
  "call_load_data rows =
     \<lparr>heap = [Loaded (load_data rows), Loaded (load_data rows)],
      df_ref = 1, filtered_ref = None\<rparr>"

definition df_object :: "env \<Rightarrow> obj" where
  "df_object e = heap e ! df_ref e"

text \<open>
  Lines 62-63: the column \<open>payment_name\<close> is written into the object \<open>df\<close> names;
  where the column exists it is overwritten.
\<close>

definition rename_row :: "'a named_trip_scheme \<Rightarrow> 'a named_trip_scheme" where
  "rename_row r = r\<lparr>payment_name := payment_name_of (payment_type r)\<rparr>"

definition assign_payment_name :: "env \<Rightarrow> env" where
  "assign_payment_name e =
     e\<lparr>heap := (heap e)[df_ref e :=
        (case df_object e of
           Loaded f \<Rightarrow> Named (decode_payment f)
         | Named f \<Rightarrow> Named (map (\<lambda>(i, r). (i, rename_row r)) f)
         | WithDay f \<Rightarrow> WithDay (map (\<lambda>(i, r). (i, rename_row r)) f))]\<rparr>"

text \<open>
  Lines 75-79: the selection is a new object, bound to \<open>filtered\<close>. Without the
  column \<open>payment_name\<close> the mask raises KeyError.
\<close>

definition assign_filtered ::
  "int \<times> int \<Rightarrow> nat \<times> nat \<Rightarrow> string list \<Rightarrow> env \<Rightarrow> error + env" where
  "assign_filtered date_range hour_range payment_options e =
     (case df_object e of
        Loaded f \<Rightarrow> Inl KeyError
      | Named f \<Rightarrow>
          Inr (e\<lparr>heap := heap e @ [Named (filtered f date_range hour_range payment_options)],
                 filtered_ref := Some (length (heap e))\<rparr>)
      | WithDay f \<Rightarrow>
          Inr (e\<lparr>heap := heap e @ [WithDay (filtered f date_range hour_range payment_options)],
                 filtered_ref := Some (length (heap e))\<rparr>))"

text \<open>
  Lines 153-154: when \<open>filtered\<close> has no column \<open>pickup_day_of_week\<close> it is
  written into the object \<open>filtered\<close> names. The statements between line 79 and
  line 153 read \<open>filtered\<close> and the zone table and build tables of their own; they
  assign to no column of \<open>df\<close> or \<open>filtered\<close>.
\<close>

definition assign_day_of_week :: "env \<Rightarrow> error + env" where
  "assign_day_of_week e =
     (case filtered_ref e of
        None \<Rightarrow> Inl KeyError
      | Some a \<Rightarrow>
          (case heap e ! a of
             Loaded f \<Rightarrow> Inl KeyError
           | Named f \<Rightarrow> Inr (e\<lparr>heap := (heap e)[a := WithDay (with_day_of_week f)]\<rparr>)
           | WithDay f \<Rightarrow> Inr e))"

section \<open>Example rows\<close>

text \<open>A ten-minute trip picked up \<open>t\<close> seconds after the epoch, paid by card.\<close>

definition trip_at :: "int \<Rightarrow> raw_trip" where
  "trip_at t =
     \<lparr>tpep_pickup_datetime = Some t, tpep_dropoff_datetime = Some (t + 600),
      fare_amount = Fin 10, tip_amount = Fin 2, total_amount = Fin 12,
      trip_distance = Fin 3, PULocationID = 7, payment_type = Some 1\<rparr>"

text \<open>The same trip with no fare and a tip of 5.\<close>

definition zero_fare_trip :: raw_trip where
  "zero_fare_trip = (trip_at 0)\<lparr>fare_amount := Fin 0, tip_amount := Fin 5\<rparr>"

text \<open>One trip at midnight on each of seven consecutive days.\<close>

definition one_week :: "raw_trip list" where
  "one_week = map (\<lambda>k. trip_at (k * 86400)) [0, 1, 2, 3, 4, 5, 6]"

text \<open>A zone table with the zone of those trips and one more.\<close>

definition two_zones :: "zone list" where
  "two_zones = [\<lparr>LocationID = 7, Borough = ''Manhattan'', Zone = ''Midtown''\<rparr>,
                \<lparr>LocationID = 8, Borough = ''Queens'', Zone = ''Astoria''\<rparr>]"

text \<open>The working subset of that week with every date, hour and payment type selected.\<close>

definition week_subset :: "named_trip frame" where
  "week_subset =
     filtered (decode_payment (load_data one_week)) (0, 6) (0, 23) [''Credit Card'']"

section \<open>Frames: basic facts\<close>

lemma reset_index_labels: "map fst (reset_index f) = [0..<length f]"
  by (simp add: reset_index_def)

lemma decode_payment_labels: "map fst (decode_payment f) = map fst f"
  by (induction f) (auto simp: decode_payment_def)

lemma load_data_labels: "map fst (load_data rows) = [0..<length (load_data rows)]"
  by (simp add: load_data_def reset_index_def)

lemma reset_index_idem: "reset_index (reset_index f) = reset_index f"
  by (simp add: reset_index_def)

lemma reset_index_row: "(i, r) \<in> set (reset_index f) \<Longrightarrow> r \<in> snd ` set f"
  unfolding reset_index_def by (auto dest!: set_zip_rightD)

lemma decode_row_fields:
  "fare_amount (decode_row r) = fare_amount r"
  "trip_distance (decode_row r) = trip_distance r"
  "trip_duration_min (decode_row r) = trip_duration_min r"
  "pickup_hour (decode_row r) = pickup_hour r"
  "pickup_day (decode_row r) = pickup_day r"
  "pickup_date (decode_row r) = pickup_date r"
  "tpep_pickup_datetime (decode_row r) = tpep_pickup_datetime r"
  "PULocationID (decode_row r) = PULocationID r"
  "payment_name (decode_row r) = payment_name_of (payment_type r)"
  by (simp_all add: decode_row_def trip.defs named_trip.defs)

lemma decode_payment_row:
  "(i, r) \<in> set (decode_payment f) \<longleftrightarrow> (\<exists>r'. r = decode_row r' \<and> (i, r') \<in> set f)"
  by (auto simp: decode_payment_def)

lemma filtered_row: "(i, r) \<in> set (filtered df dr hr po) \<Longrightarrow> (i, r) \<in> set df"
  by (simp add: filtered_def mask_rows_def)

section \<open>Cleaning\<close>

lemma fless_between:
  "fless (Fin a) v \<and> fless v (Fin b) \<longleftrightarrow> (\<exists>x. v = Fin x \<and> a < x \<and> x < b)"
  by (cases v) simp_all

lemma clean_rows_filter:
  "clean_rows f = filter (\<lambda>(i, r). fare_ok r \<and> distance_ok r \<and> duration_ok r) f"
  by (auto simp: clean_rows_def mask_rows_def intro: filter_cong)

lemma clean_rows_idem: "clean_rows (clean_rows f) = clean_rows f"
  by (simp add: clean_rows_filter)

lemma clean_rows_id:
  "(\<And>i r. (i, r) \<in> set f \<Longrightarrow> fare_ok r \<and> distance_ok r \<and> duration_ok r) \<Longrightarrow> clean_rows f = f"
  unfolding clean_rows_filter by (rule filter_id_conv[THEN iffD2]) auto

lemma clean_rows_ok:
  "(i, r) \<in> set (clean_rows f) \<Longrightarrow> fare_ok r \<and> distance_ok r \<and> duration_ok r"
  by (simp add: clean_rows_filter)

lemma clean_reset_clean: "clean_rows (reset_index (clean_rows f)) = reset_index (clean_rows f)"
proof (rule clean_rows_id)
  fix i r assume "(i, r) \<in> set (reset_index (clean_rows f))"
  then have "r \<in> snd ` set (clean_rows f)" by (rule reset_index_row)
  then obtain j where "(j, r) \<in> set (clean_rows f)" by auto
  then show "fare_ok r \<and> distance_ok r \<and> duration_ok r" by (rule clean_rows_ok)
qed

lemma load_data_ok:
  assumes "(i, r) \<in> set (load_data rows)"
  shows "fare_ok r \<and> distance_ok r \<and> duration_ok r"
proof -
  from assms have "r \<in> snd ` set (clean_rows (derive_columns (read_parquet rows)))"
    unfolding load_data_def by (rule reset_index_row)
  then obtain j where "(j, r) \<in> set (clean_rows (derive_columns (read_parquet rows)))" by auto
  then show ?thesis by (rule clean_rows_ok)
qed

lemma ok_iff_bounds:
  "fare_ok r \<and> distance_ok r \<and> duration_ok r \<longleftrightarrow>
     (\<exists>x. fare_amount r = Fin x \<and> 0 < x \<and> x < 200) \<and>
      (\<exists>x. trip_distance r = Fin x \<and> 0 < x \<and> x < 50) \<and>
      (\<exists>x. trip_duration_min r = Fin x \<and> 1 < x \<and> x < 180)"
  unfolding fare_ok_def distance_ok_def duration_ok_def fless_between by simp

lemma decode_row_ok:
  "fare_ok (decode_row r) = fare_ok r" "distance_ok (decode_row r) = distance_ok r"
  "duration_ok (decode_row r) = duration_ok r"
  by (simp_all add: fare_ok_def distance_ok_def duration_ok_def decode_row_fields)

lemma load_data_one_trip: "load_data [trip_at 0] = [(0, derive_row (trip_at 0))]"
  by (simp add: load_data_def reset_index_def clean_rows_def mask_rows_def derive_columns_def
      read_parquet_def fare_ok_def distance_ok_def duration_ok_def derive_row_def trip_at_def
      duration_min_def raw_trip.defs trip.defs)

lemma derive_row_trip_at:
  "fare_amount (derive_row (trip_at t)) = Fin 10"
  "trip_distance (derive_row (trip_at t)) = Fin 3"
  "trip_duration_min (derive_row (trip_at t)) = Fin 10"
  by (simp_all add: derive_row_def trip_at_def duration_min_def raw_trip.defs trip.defs)

text \<open>
  Claim C3. Every row of the clean dataset, the frame \<open>load_data\<close> returns, has a
  finite fare strictly between 0 and 200, a finite distance strictly between 0 and
  50 and a finite duration strictly between 1 and 180 minutes; so has every row of a
  working subset, whatever the filter selection is.
\<close>

theorem clean_dataset_within_bounds:
  "(\<forall>(i, r) \<in> set (load_data rows).
      (\<exists>x. fare_amount r = Fin x \<and> 0 < x \<and> x < 200) \<and>
      (\<exists>x. trip_distance r = Fin x \<and> 0 < x \<and> x < 50) \<and>
      (\<exists>x. trip_duration_min r = Fin x \<and> 1 < x \<and> x < 180)) \<and>
   (\<forall>(i, r) \<in> set (filtered (decode_payment (load_data rows))
                       date_range hour_range payment_options).
      (\<exists>x. fare_amount r = Fin x \<and> 0 < x \<and> x < 200) \<and>
      (\<exists>x. trip_distance r = Fin x \<and> 0 < x \<and> x < 50) \<and>
      (\<exists>x. trip_duration_min r = Fin x \<and> 1 < x \<and> x < 180))"
proof (intro conjI ballI; clarify)
  fix i r assume "(i, r) \<in> set (load_data rows)"
  then have "fare_ok r \<and> distance_ok r \<and> duration_ok r" by (rule load_data_ok)
  then show "(\<exists>x. fare_amount r = Fin x \<and> 0 < x \<and> x < 200) \<and>
      (\<exists>x. trip_distance r = Fin x \<and> 0 < x \<and> x < 50) \<and>
      (\<exists>x. trip_duration_min r = Fin x \<and> 1 < x \<and> x < 180)"
    by (simp only: ok_iff_bounds)
next
  fix i r
  assume "(i, r) \<in> set (filtered (decode_payment (load_data rows))
                          date_range hour_range payment_options)"
  then have "(i, r) \<in> set (decode_payment (load_data rows))" by (rule filtered_row)
  then obtain r' where r: "r = decode_row r'" and "(i, r') \<in> set (load_data rows)"
    unfolding decode_payment_row by blast
  then have "fare_ok r' \<and> distance_ok r' \<and> duration_ok r'" by (intro load_data_ok)
  then have "fare_ok r \<and> distance_ok r \<and> duration_ok r" by (simp add: r decode_row_ok)
  then show "(\<exists>x. fare_amount r = Fin x \<and> 0 < x \<and> x < 200) \<and>
      (\<exists>x. trip_distance r = Fin x \<and> 0 < x \<and> x < 50) \<and>
      (\<exists>x. trip_duration_min r = Fin x \<and> 1 < x \<and> x < 180)"
    by (simp only: ok_iff_bounds)
qed

theorem clean_dataset_within_bounds_witness:
  "(0, derive_row (trip_at 0)) \<in> set (load_data [trip_at 0]) \<and>
   fare_amount (derive_row (trip_at 0)) = Fin 10 \<and>
   (\<exists>x. fare_amount (derive_row (trip_at 0)) = Fin x \<and> 0 < x \<and> x < 200)"
  using clean_dataset_within_bounds [of "[trip_at 0]" "(0, 0)" "(0, 23)" "[]"]
  by (simp add: load_data_one_trip derive_row_trip_at)

text \<open>
  Claim C7. Cleaning is idempotent: the three masks with the renumbering, applied to
  their own result, give that result again; applied to the clean dataset they give
  the clean dataset; and the three masks leave unchanged every frame whose rows are
  all within the three bounds.
\<close>

theorem sanitize_idempotent:
  "reset_index (clean_rows (reset_index (clean_rows f))) = reset_index (clean_rows f) \<and>
   reset_index (clean_rows (load_data rows)) = load_data rows \<and>
   ((\<forall>(i, r) \<in> set g.
      (\<exists>x. fare_amount r = Fin x \<and> 0 < x \<and> x < 200) \<and>
      (\<exists>x. trip_distance r = Fin x \<and> 0 < x \<and> x < 50) \<and>
      (\<exists>x. trip_duration_min r = Fin x \<and> 1 < x \<and> x < 180))
    \<longrightarrow> clean_rows g = g)"
proof (intro conjI impI)
  show "reset_index (clean_rows (reset_index (clean_rows f))) = reset_index (clean_rows f)"
    by (simp add: clean_reset_clean reset_index_idem)
  show "reset_index (clean_rows (load_data rows)) = load_data rows"
    by (simp add: load_data_def clean_reset_clean reset_index_idem)
next
  assume "\<forall>(i, r) \<in> set g.
      (\<exists>x. fare_amount r = Fin x \<and> 0 < x \<and> x < 200) \<and>
      (\<exists>x. trip_distance r = Fin x \<and> 0 < x \<and> x < 50) \<and>
      (\<exists>x. trip_duration_min r = Fin x \<and> 1 < x \<and> x < 180)"
  then have "\<And>i r. (i, r) \<in> set g \<Longrightarrow> fare_ok r \<and> distance_ok r \<and> duration_ok r"
    unfolding ok_iff_bounds by blast
  then show "clean_rows g = g" by (rule clean_rows_id)
qed

theorem sanitize_idempotent_witness:
  "load_data [trip_at 0] = [(0, derive_row (trip_at 0))] \<and>
   fare_amount (derive_row (trip_at 0)) = Fin 10 \<and>
   trip_distance (derive_row (trip_at 0)) = Fin 3 \<and>
   trip_duration_min (derive_row (trip_at 0)) = Fin 10 \<and>
   clean_rows (load_data [trip_at 0]) = load_data [trip_at 0]"
proof -
  have h: "\<forall>(i, r) \<in> set (load_data [trip_at 0]).
      (\<exists>x. fare_amount r = Fin x \<and> 0 < x \<and> x < 200) \<and>
      (\<exists>x. trip_distance r = Fin x \<and> 0 < x \<and> x < 50) \<and>
      (\<exists>x. trip_duration_min r = Fin x \<and> 1 < x \<and> x < 180)"
    by (simp add: load_data_one_trip derive_row_trip_at)
  from sanitize_idempotent [of "[]" "[]" "load_data [trip_at 0]"] h
  have "clean_rows (load_data [trip_at 0]) = load_data [trip_at 0]" by blast
  then show ?thesis by (simp add: load_data_one_trip derive_row_trip_at)
qed

section \<open>Tip percentage\<close>

text \<open>
  Where the fare is a finite non-zero number the tip percentage is the quotient times
  100; where the fare or the tip is NaN, or both are 0, the quotient is NaN and
  \<open>fillna\<close> makes it 0.
\<close>

lemma tip_pct_derive_row:
  "tip_pct (derive_row r) = fillna (Fin 0) (fmul (fdiv (tip_amount r) (fare_amount r)) (Fin 100))"
  by (simp add: derive_row_def raw_trip.defs trip.defs)

lemma tip_pct_finite:
  "fare_amount r = Fin b \<Longrightarrow> b \<noteq> 0 \<Longrightarrow> tip_amount r = Fin a
     \<Longrightarrow> tip_pct (derive_row r) = Fin (a / b * 100)"
  by (simp add: tip_pct_derive_row)

lemma tip_pct_fare_nan: "fare_amount r = NaN \<Longrightarrow> tip_pct (derive_row r) = Fin 0"
  by (cases "tip_amount r") (simp_all add: tip_pct_derive_row)

lemma tip_pct_zero_zero:
  "fare_amount r = Fin 0 \<Longrightarrow> tip_amount r = Fin 0 \<Longrightarrow> tip_pct (derive_row r) = Fin 0"
  by (simp add: tip_pct_derive_row)

text \<open>
  Claim C1. The tip percentage of a row with \<open>fare_amount = 0\<close> and
  \<open>tip_amount = 5\<close> is claimed to be 0. The division gives plus infinity, the
  product with 100 is plus infinity, and \<open>fillna(0)\<close> replaces NaN only: the
  derived value is plus infinity.
\<close>

theorem tip_pct_zero_fare_is_infinite:
  "map (\<lambda>(i, r). tip_pct r) (derive_columns (read_parquet [zero_fare_trip])) = [PInf]"
  by (simp add: derive_columns_def read_parquet_def derive_row_def zero_fare_trip_def
      trip_at_def raw_trip.defs trip.defs)

section \<open>The filter\<close>

lemma filtered_labels_increasing:
  assumes "sorted_wrt (<) (map fst df)"
  shows "sorted_wrt (<) (map fst (filtered df dr hr po))"
  using assms unfolding filtered_def mask_rows_def sorted_wrt_map by (rule sorted_wrt_filter)

lemma clean_labels_increasing: "sorted_wrt (<) (map fst (decode_payment (load_data rows)))"
  by (simp add: decode_payment_labels load_data_labels)

text \<open>
  Claim C10. A working subset is a subsequence of the clean dataset: its rows are rows
  of the clean dataset in the same relative order, and its index labels, which are
  positions in the clean dataset, increase strictly, so no row is taken twice.
\<close>

theorem filtered_is_subsequence:
  "subseq (filtered (decode_payment (load_data rows)) date_range hour_range payment_options)
          (decode_payment (load_data rows)) \<and>
   sorted_wrt (<) (map fst (filtered (decode_payment (load_data rows))
                              date_range hour_range payment_options))"
  by (simp add: filtered_labels_increasing clean_labels_increasing)
     (simp add: filtered_def mask_rows_def)

lemma duration_min_fin:
  "duration_min d p = Fin x \<Longrightarrow> \<exists>t. p = Some t"
  by (cases p; cases d) (simp_all add: duration_min_def)

lemma derive_row_fields:
  "tpep_pickup_datetime (derive_row r) = tpep_pickup_datetime r"
  "pickup_hour (derive_row r) = dt_hour (tpep_pickup_datetime r)"
  "pickup_day (derive_row r) = dt_dayofweek (tpep_pickup_datetime r)"
  "pickup_date (derive_row r) = dt_date (tpep_pickup_datetime r)"
  "trip_duration_min (derive_row r) = duration_min (tpep_dropoff_datetime r) (tpep_pickup_datetime r)"
  "payment_type (derive_row r) = payment_type r"
  "PULocationID (derive_row r) = PULocationID r"
  by (simp_all add: derive_row_def raw_trip.defs trip.defs)

lemma load_data_derived:
  assumes "(i, r) \<in> set (load_data rows)"
  shows "\<exists>r0. r = derive_row r0"
proof -
  from assms have "r \<in> snd ` set (clean_rows (derive_columns (read_parquet rows)))"
    unfolding load_data_def by (rule reset_index_row)
  then show ?thesis by (auto simp: clean_rows_filter derive_columns_def)
qed

lemma load_data_timestamp:
  assumes "(i, r) \<in> set (load_data rows)"
  shows "\<exists>t. tpep_pickup_datetime r = Some t \<and> pickup_hour r = Some (nat ((t div 3600) mod 24))
           \<and> pickup_day r = Some (nat ((t div 86400 + 3) mod 7))
           \<and> pickup_date r = Some (t div 86400)"
proof -
  from assms obtain r0 where r: "r = derive_row r0" using load_data_derived by blast
  from assms have "duration_ok r" using load_data_ok by blast
  then obtain x where "trip_duration_min r = Fin x"
    unfolding duration_ok_def fless_between by blast
  then obtain t where "tpep_pickup_datetime r0 = Some t"
    unfolding r derive_row_fields using duration_min_fin by blast
  then show ?thesis by (simp add: r derive_row_fields dt_hour_def dt_dayofweek_def dt_date_def)
qed

lemma min_date_le:
  assumes "min_date f = Some lo" "(i, r) \<in> set f" "pickup_date r = Some d"
  shows "lo \<le> d"
proof -
  let ?ds = "List.map_filter (\<lambda>(i, r). pickup_date r) f"
  from assms(2,3) have d: "d \<in> set ?ds" by (force simp: map_filter_def)
  then obtain d0 ds where ds: "?ds = d0 # ds" by (cases ?ds) auto
  with assms(1) have "lo = fold min ds d0" by (simp add: min_date_def)
  then have "lo = Min (set (d0 # ds))" by (simp only: Min.set_eq_fold)
  with d ds show ?thesis by simp
qed

lemma max_date_ge:
  assumes "max_date f = Some hi" "(i, r) \<in> set f" "pickup_date r = Some d"
  shows "d \<le> hi"
proof -
  let ?ds = "List.map_filter (\<lambda>(i, r). pickup_date r) f"
  from assms(2,3) have d: "d \<in> set ?ds" by (force simp: map_filter_def)
  then obtain d0 ds where ds: "?ds = d0 # ds" by (cases ?ds) auto
  with assms(1) have "hi = fold max ds d0" by (simp add: max_date_def)
  then have "hi = Max (set (d0 # ds))" by (simp only: Max.set_eq_fold)
  with d ds show ?thesis by simp
qed

lemma set_unique: "set (unique xs) = set xs"
  by (simp add: unique_def)

lemma payment_name_default:
  "(i, r) \<in> set f \<Longrightarrow> payment_name r \<in> set (payment_options_default f)"
  by (force simp: payment_options_default_def set_unique)

lemma load_data_one_week:
  "load_data one_week =
     [(0, derive_row (trip_at 0)), (1, derive_row (trip_at 86400)),
      (2, derive_row (trip_at 172800)), (3, derive_row (trip_at 259200)),
      (4, derive_row (trip_at 345600)), (5, derive_row (trip_at 432000)),
      (6, derive_row (trip_at 518400))]"
  by (simp add: load_data_def one_week_def read_parquet_def derive_columns_def clean_rows_def
      mask_rows_def fare_ok_def distance_ok_def duration_ok_def derive_row_trip_at
      reset_index_def upt_rec_numeral)

lemma trip_at_derived:
  "pickup_date (decode_row (derive_row (trip_at t))) = Some (t div 86400)"
  "pickup_hour (decode_row (derive_row (trip_at t))) = Some (nat ((t div 3600) mod 24))"
  "pickup_day (decode_row (derive_row (trip_at t))) = Some (nat ((t div 86400 + 3) mod 7))"
  "tpep_pickup_datetime (decode_row (derive_row (trip_at t))) = Some t"
  "payment_name (decode_row (derive_row (trip_at t))) = ''Credit Card''"
  "PULocationID (decode_row (derive_row (trip_at t))) = 7"
  by (simp_all add: decode_row_fields derive_row_fields dt_date_def dt_hour_def dt_dayofweek_def
      trip_at_def payment_name_of_def payment_map_def)

text \<open>
  Claim C4. With the date range from the least to the greatest pickup date of the
  clean dataset, the hour range 0 to 23 and all payment names of the clean dataset
  selected, the filter returns the clean dataset: the same rows with the same labels
  in the same order.
\<close>

theorem full_selection_keeps_all:
  assumes df: "df = decode_payment (load_data rows)"
      and lo: "min_date df = Some lo" and hi: "max_date df = Some hi"
  shows "filtered df (lo, hi) (0, 23) (payment_options_default df) = df"
unfolding filtered_def mask_rows_def
proof (rule filter_id_conv[THEN iffD2], clarify)
  fix i r assume ir: "(i, r) \<in> set df"
  then obtain r' where r: "r = decode_row r'" and r': "(i, r') \<in> set (load_data rows)"
    unfolding df decode_payment_row by blast
  from load_data_timestamp[OF r'] obtain t where
    t: "pickup_hour r = Some (nat ((t div 3600) mod 24))" "pickup_date r = Some (t div 86400)"
    by (auto simp: r decode_row_fields)
  have "lo \<le> t div 86400" using min_date_le[OF lo ir t(2)] .
  moreover have "t div 86400 \<le> hi" using max_date_ge[OF hi ir t(2)] .
  moreover have "nat ((t div 3600) mod 24) \<le> 23" by simp
  moreover have "payment_name r \<in> set (payment_options_default df)"
    using ir by (rule payment_name_default)
  ultimately show "cell_ge (pickup_date r) (fst (lo, hi)) \<and> cell_le (pickup_date r) (snd (lo, hi)) \<and>
        cell_ge (pickup_hour r) (fst (0::nat, 23::nat)) \<and> cell_le (pickup_hour r) (snd (0::nat, 23::nat)) \<and>
        payment_name r \<in> set (payment_options_default df)"
    by (simp add: t cell_ge_def cell_le_def)
qed

theorem full_selection_keeps_all_witness:
  "min_date (decode_payment (load_data one_week)) = Some 0 \<and>
   max_date (decode_payment (load_data one_week)) = Some 6 \<and>
   filtered (decode_payment (load_data one_week)) (0, 6) (0, 23)
     (payment_options_default (decode_payment (load_data one_week)))
   = decode_payment (load_data one_week)"
proof -
  have lo: "min_date (decode_payment (load_data one_week)) = Some 0"
    by (simp add: load_data_one_week decode_payment_def min_date_def map_filter_def trip_at_derived)
  have hi: "max_date (decode_payment (load_data one_week)) = Some 6"
    by (simp add: load_data_one_week decode_payment_def max_date_def map_filter_def trip_at_derived)
  from full_selection_keeps_all [OF refl lo hi] lo hi show ?thesis by simp
qed

text \<open>
  Claim C9. With an empty list of payment types the filter selects no row, whatever
  the frame, the date range and the hour range are; the result is the empty frame,
  not an error and not the whole frame.
\<close>

theorem filtered_no_payment_options:
  "filtered df date_range hour_range [] = []"
  by (simp add: filtered_def mask_rows_def)

section \<open>Top pickup zones\<close>

lemma sort_trips_desc_sorted: "sorted_wrt (\<ge>) (map trips (sort_trips_desc xs))"
proof -
  have "sorted (map trips (sort_key trips (rev xs)))" by (rule sorted_sort_key)
  then have "sorted_wrt (\<ge>) (rev (map trips (sort_key trips (rev xs))))"
    by (simp only: sorted_wrt_rev)
  then show ?thesis
    by (simp only: sort_trips_desc_def rev_map)
qed

lemma set_sort_trips_desc: "set (sort_trips_desc xs) = set xs"
  by (simp add: sort_trips_desc_def)

lemma set_group_size: "(k, n) \<in> set (group_size ks) \<longleftrightarrow> k \<in> set ks \<and> n = count_list ks k"
  by (auto simp: group_size_def)

lemma merge_zones_row:
  "row \<in> set (merge_zones left zl) \<longleftrightarrow>
     (\<exists>k n z. (k, n) \<in> set left \<and> z \<in> set zl \<and> LocationID z = k \<and>
        row = \<lparr>zr_PULocationID = k, trips = n, zr_zone = z\<rparr>)"
  by (auto simp: merge_zones_def)

lemma take_desc: "sorted_wrt (\<ge>) (map trips xs) \<Longrightarrow> sorted_wrt (\<ge>) (map trips (take n xs))"
  unfolding sorted_wrt_map by (rule sorted_wrt_take)

lemma count_list_filter: "count_list xs k = length (filter (\<lambda>x. x = k) xs)"
  by (induction xs) auto

text \<open>
  Claim C6. The top pickup zones table has at most 10 rows, its trip counts descend,
  and every row carries a zone of the zone table whose identifier is the row's pickup
  location; its count is the number of trips of the frame picked up there.
\<close>

theorem top_zones_at_most_ten_descending_matched:
  "length (top_zones f zone_lookup) \<le> 10 \<and>
   sorted_wrt (\<ge>) (map trips (top_zones f zone_lookup)) \<and>
   (\<forall>row \<in> set (top_zones f zone_lookup).
      zr_zone row \<in> set zone_lookup \<and>
      LocationID (zr_zone row) = zr_PULocationID row \<and>
      0 < trips row \<and>
      trips row = length (filter (\<lambda>(i, r). PULocationID r = zr_PULocationID row) f))"
proof (intro conjI ballI)
  show "length (top_zones f zone_lookup) \<le> 10" by (simp add: top_zones_def)
  show "sorted_wrt (\<ge>) (map trips (top_zones f zone_lookup))"
    unfolding top_zones_def by (intro take_desc sort_trips_desc_sorted)
next
  fix row assume "row \<in> set (top_zones f zone_lookup)"
  then have "row \<in> set (merge_zones (group_size (map (\<lambda>(i, r). PULocationID r) f)) zone_lookup)"
    unfolding top_zones_def using set_sort_trips_desc by (metis in_set_takeD)
  then obtain k n z where
    kn: "(k, n) \<in> set (group_size (map (\<lambda>(i, r). PULocationID r) f))" and
    z: "z \<in> set zone_lookup" "LocationID z = k" and
    row: "row = \<lparr>zr_PULocationID = k, trips = n, zr_zone = z\<rparr>"
    unfolding merge_zones_row by blast
  from kn have k: "k \<in> set (map (\<lambda>(i, r). PULocationID r) f)"
    and n: "n = count_list (map (\<lambda>(i, r). PULocationID r) f) k"
    unfolding set_group_size by blast+
  have n': "n = length (filter (\<lambda>(i, r). PULocationID r = k) f)"
    unfolding n count_list_filter filter_map by (simp add: comp_def case_prod_unfold)
  from k have "0 < n" unfolding n using count_list_0_iff[of "map (\<lambda>(i, r). PULocationID r) f" k] by linarith
  with z row n' show "zr_zone row \<in> set zone_lookup" "LocationID (zr_zone row) = zr_PULocationID row"
    "0 < trips row" "trips row = length (filter (\<lambda>(i, r). PULocationID r = zr_PULocationID row) f)"
    by simp_all
qed

lemma derive_PU: "PULocationID (derive_row (trip_at t)) = 7"
  by (simp add: derive_row_fields trip_at_def)

lemma top_zones_one_week:
  "top_zones (load_data one_week) two_zones =
     [\<lparr>zr_PULocationID = 7, trips = 7,
       zr_zone = \<lparr>LocationID = 7, Borough = ''Manhattan'', Zone = ''Midtown''\<rparr>\<rparr>]"
  by (simp add: top_zones_def load_data_one_week derive_PU group_size_def merge_zones_def
      sort_trips_desc_def two_zones_def)

theorem top_zones_at_most_ten_descending_matched_witness:
  "\<lparr>zr_PULocationID = 7, trips = 7,
     zr_zone = \<lparr>LocationID = 7, Borough = ''Manhattan'', Zone = ''Midtown''\<rparr>\<rparr>
     \<in> set (top_zones (load_data one_week) two_zones) \<and>
   \<lparr>LocationID = 7, Borough = ''Manhattan'', Zone = ''Midtown''\<rparr> \<in> set two_zones \<and>
   length (filter (\<lambda>(i, r). PULocationID r = 7) (load_data one_week)) = 7"
  using top_zones_at_most_ten_descending_matched [of "load_data one_week" two_zones]
  by (simp add: top_zones_one_week)

section \<open>Trips by day of week and hour\<close>

lemma weekday_name:
  "d < 7 \<Longrightarrow> j < 7 \<Longrightarrow> weekday_order d = Some (days_order ! j) \<longleftrightarrow> d = j"
proof -
  assume "d < 7" "j < 7"
  then have d: "d \<in> {0, 1, 2, 3, 4, 5, 6}" and j: "j \<in> {0, 1, 2, 3, 4, 5, 6}" by auto
  from d j show ?thesis
    unfolding weekday_order_def days_order_def by (elim insertE emptyE; simp)
qed

lemma days_order_nth: "days_order = map (\<lambda>j. days_order ! j) [0..<7]"
proof -
  have "length days_order = 7" by (simp add: days_order_def)
  with map_nth[of days_order] show ?thesis by simp
qed

lemma find_keyed:
  "find (\<lambda>(d, h, n). (d, h) = k) (map (\<lambda>((d, h), n). (d, h, n)) (map (\<lambda>k. (k, c k)) xs))
     = (if k \<in> set xs then Some (fst k, snd k, c k) else None)"
  by (induction xs) (auto split: prod.splits)

lemma pivot_cell_count:
  assumes small: "\<forall>(d, h) \<in> set ks. d < 7" and j: "j < 7"
  shows "(case pivot_cell (map (\<lambda>((d, h), n). (d, h, n)) (group_size ks)) h (days_order ! j) of
            None \<Rightarrow> 0 | Some n \<Rightarrow> n) = count_list ks (j, h)"
proof -
  let ?bd = "map (\<lambda>((d, h), n). (d, h, n)) (group_size ks)"
  have "find (\<lambda>(d, h', n). h' = h \<and> weekday_order d = Some (days_order ! j)) ?bd
        = find (\<lambda>(d, h', n). (d, h') = (j, h)) ?bd"
  proof (rule find_cong[OF refl])
    fix x assume "x \<in> set ?bd"
    then obtain d h' n where x: "x = (d, h', n)" and "(d, h') \<in> set ks"
      by (auto simp: group_size_def)
    with small have "d < 7" by auto
    then show "(case x of (d, h', n) \<Rightarrow> h' = h \<and> weekday_order d = Some (days_order ! j))
             = (case x of (d, h', n) \<Rightarrow> (d, h') = (j, h))"
      using weekday_name[OF _ j] by (auto simp: x)
  qed
  also have "\<dots> = (if (j, h) \<in> set ks then Some (j, h, count_list ks (j, h)) else None)"
    using find_keyed[of "(j, h)" "count_list ks" "sort (remdups ks)"]
    by (simp only: group_size_def set_sort set_remdups fst_conv snd_conv)
  finally show ?thesis
    by (simp add: pivot_cell_def)
qed

lemma pivot_columns:
  assumes small: "\<forall>(d, h) \<in> set ks. d < 7" and j: "j < 7"
  shows "Some (days_order ! j) \<in> set (remdups (map (\<lambda>(d, h, n). weekday_order d)
            (map (\<lambda>((d, h), n). (d, h, n)) (group_size ks))))
         \<longleftrightarrow> (\<exists>h. (j, h) \<in> set ks)"
proof -
  have "Some (days_order ! j) \<in> set (remdups (map (\<lambda>(d, h, n). weekday_order d)
            (map (\<lambda>((d, h), n). (d, h, n)) (group_size ks))))
        \<longleftrightarrow> (\<exists>(d, h) \<in> set ks. weekday_order d = Some (days_order ! j))"
    by (force simp: group_size_def image_iff)
  also have "\<dots> \<longleftrightarrow> (\<exists>(d, h) \<in> set ks. d = j)"
    using small weekday_name[OF _ j] by (intro bex_cong refl) auto
  also have "\<dots> \<longleftrightarrow> (\<exists>h. (j, h) \<in> set ks)" by auto
  finally show ?thesis .
qed

lemma pivot_index:
  "sort (remdups (map (\<lambda>(d, h, n). h) (map (\<lambda>((d, h), n). (d, h, n)) (group_size ks))))
     = sort (remdups (map snd ks))"
proof (rule sorted_distinct_set_unique)
  show "set (sort (remdups (map (\<lambda>(d, h, n). h) (map (\<lambda>((d, h), n). (d, h, n)) (group_size ks)))))
      = set (sort (remdups (map snd ks)))"
    by (force simp: group_size_def image_iff)
qed simp_all

lemma pivot_days_group_size:
  assumes small: "\<forall>(d, h) \<in> set ks. d < 7" and days: "\<forall>j<7. \<exists>h. (j, h) \<in> set ks"
  shows "pivot_days (map (\<lambda>((d, h), n). (d, h, n)) (group_size ks))
       = Inr (map (\<lambda>h. (h, map (\<lambda>j. count_list ks (j, h)) [0..<7])) (sort (remdups (map snd ks))))"
proof -
  let ?bd = "map (\<lambda>((d, h), n). (d, h, n)) (group_size ks)"
  have cols: "list_all (\<lambda>name. Some name \<in> set (remdups (map (\<lambda>(d, h, n). weekday_order d) ?bd)))
                days_order"
    apply (subst days_order_nth)
    unfolding list_all_iff using pivot_columns[OF small] days by auto
  have cells: "map (\<lambda>name. case pivot_cell ?bd h name of None \<Rightarrow> 0 | Some n \<Rightarrow> n) days_order
             = map (\<lambda>j. count_list ks (j, h)) [0..<7]" for h
    apply (subst days_order_nth)
    unfolding map_map comp_def
    by (rule map_cong[OF refl]) (simp add: pivot_cell_count[OF small])
  show ?thesis
    unfolding pivot_days_def Let_def pivot_index using cols by (simp add: cells)
qed

lemma add_day_of_week_fields:
  "pickup_day_of_week (add_day_of_week r) = dt_dayofweek (tpep_pickup_datetime r)"
  "pickup_hour (add_day_of_week r) = pickup_hour r"
  by (simp_all add: add_day_of_week_def named_trip.defs dow_trip.defs)

lemma count_list_map_filter:
  "count_list (List.map_filter g xs) k = length (filter (\<lambda>x. g x = Some k) xs)"
  by (induction xs) (auto simp: map_filter_simps split: option.splits)

lemma set_map_filter: "set (List.map_filter g xs) = {y. \<exists>x \<in> set xs. g x = Some y}"
  by (induction xs) (auto simp: map_filter_simps split: option.splits)

lemma working_subset_row:
  assumes "(i, r) \<in> set (filtered (decode_payment (load_data rows)) dr hr po)"
  shows "\<exists>t. tpep_pickup_datetime r = Some t \<and> pickup_hour r = Some (nat ((t div 3600) mod 24))
           \<and> pickup_day r = Some (nat ((t div 86400 + 3) mod 7))"
proof -
  from assms have "(i, r) \<in> set (decode_payment (load_data rows))" by (rule filtered_row)
  then obtain r' where r: "r = decode_row r'" and r': "(i, r') \<in> set (load_data rows)"
    unfolding decode_payment_row by blast
  from load_data_timestamp[OF r'] show ?thesis by (auto simp: r decode_row_fields)
qed

lemma bar_data_keys:
  "bar_data (with_day_of_week f) =
     map (\<lambda>((d, h), n). (d, h, n))
       (group_size (List.map_filter
          (\<lambda>(i, r). case (dt_dayofweek (tpep_pickup_datetime r), pickup_hour r) of
                       (Some d, Some h) \<Rightarrow> Some (d, h) | _ \<Rightarrow> None) f))"
proof -
  have "List.map_filter
          (\<lambda>(i, r). case (pickup_day_of_week r, pickup_hour r) of
                       (Some d, Some h) \<Rightarrow> Some (d, h) | _ \<Rightarrow> None) (with_day_of_week f)
      = List.map_filter
          (\<lambda>(i, r). case (dt_dayofweek (tpep_pickup_datetime r), pickup_hour r) of
                       (Some d, Some h) \<Rightarrow> Some (d, h) | _ \<Rightarrow> None) f"
    by (induction f) (auto simp: with_day_of_week_def map_filter_simps add_day_of_week_fields
        split: option.splits)
  then show ?thesis by (simp add: bar_data_def)
qed

text \<open>
  Claim C2, amended. For a working subset in which every day of the week occurs, the
  table has one row for each hour that occurs in the subset, in ascending order, and
  seven cells in each row, Monday to Sunday; a cell holds the number of trips of the
  subset with that day and hour, which is 0 where there is none. An hour without
  trips has no row.
\<close>

theorem bar_pivot_rows_are_hours_present:
  assumes f: "f = filtered (decode_payment (load_data rows)) date_range hour_range payment_options"
      and days: "\<forall>d<7. \<exists>(i, r) \<in> set f. pickup_day r = Some d"
  shows "bar_pivot f =
     Inr (map (\<lambda>h. (h, map (\<lambda>d. length (filter (\<lambda>(i, r). pickup_day r = Some d \<and>
                                                       pickup_hour r = Some h) f)) [0..<7]))
              (sort (remdups (List.map_filter (\<lambda>(i, r). pickup_hour r) f))))"
proof -
  let ?key = "\<lambda>(i::nat, r::named_trip). case (dt_dayofweek (tpep_pickup_datetime r), pickup_hour r) of
                       (Some d, Some h) \<Rightarrow> Some (d, h) | _ \<Rightarrow> None"
  let ?ks = "List.map_filter ?key f"
  have row: "\<exists>t. tpep_pickup_datetime r = Some t \<and> pickup_hour r = Some (nat ((t div 3600) mod 24))
           \<and> pickup_day r = Some (nat ((t div 86400 + 3) mod 7))" if "(i, r) \<in> set f" for i r
    using that unfolding f by (rule working_subset_row)
  have key: "?key (i, r) = Some (d, h) \<longleftrightarrow> pickup_day r = Some d \<and> pickup_hour r = Some h"
    if "(i, r) \<in> set f" for i r d h
    using row[OF that] by (auto simp: dt_dayofweek_def)
  have "d < 7" if "(d, h) \<in> set ?ks" for d h
  proof -
    from that obtain i r where ir: "(i, r) \<in> set f" and "?key (i, r) = Some (d, h)"
      unfolding set_map_filter by auto
    with key[OF ir] have "pickup_day r = Some d" by simp
    with row[OF ir] show "d < 7" by auto
  qed
  then have small: "\<forall>(d, h) \<in> set ?ks. d < 7" by blast
  have all_days: "\<forall>j<7. \<exists>h. (j, h) \<in> set ?ks"
  proof (intro allI impI)
    fix j :: nat assume "j < 7"
    with days obtain i r where ir: "(i, r) \<in> set f" and d: "pickup_day r = Some j" by auto
    from row[OF ir] obtain h where "pickup_hour r = Some h" by auto
    with d key[OF ir] have "?key (i, r) = Some (j, h)" by simp
    with ir show "\<exists>h. (j, h) \<in> set ?ks" unfolding set_map_filter by blast
  qed
  have counts: "count_list ?ks (d, h) =
      length (filter (\<lambda>(i, r). pickup_day r = Some d \<and> pickup_hour r = Some h) f)" for d h
    unfolding count_list_map_filter
    by (rule arg_cong[where f = length], rule filter_cong[OF refl]) (use key in auto)
  have "set (map snd ?ks) = set (List.map_filter (\<lambda>(i, r). pickup_hour r) f)"
  proof (intro set_eqI iffI)
    fix h assume "h \<in> set (map snd ?ks)"
    then obtain d where "(d, h) \<in> set ?ks" by auto
    then obtain i r where ir: "(i, r) \<in> set f" and "?key (i, r) = Some (d, h)"
      unfolding set_map_filter by auto
    with key[OF ir] have "pickup_hour r = Some h" by simp
    with ir show "h \<in> set (List.map_filter (\<lambda>(i, r). pickup_hour r) f)"
      unfolding set_map_filter by force
  next
    fix h assume "h \<in> set (List.map_filter (\<lambda>(i, r). pickup_hour r) f)"
    then obtain i r where ir: "(i, r) \<in> set f" and h: "pickup_hour r = Some h"
      unfolding set_map_filter by auto
    from row[OF ir] obtain d where "pickup_day r = Some d" by auto
    with h key[OF ir] have "?key (i, r) = Some (d, h)" by simp
    with ir have "(d, h) \<in> set ?ks" unfolding set_map_filter by blast
    then show "h \<in> set (map snd ?ks)" by force
  qed
  then have hours: "sort (remdups (map snd ?ks))
      = sort (remdups (List.map_filter (\<lambda>(i, r). pickup_hour r) f))"
    by (intro sorted_distinct_set_unique) simp_all
  show ?thesis
    unfolding bar_pivot_def bar_data_keys pivot_days_group_size[OF small all_days] hours counts
    by (rule refl)
qed

lemma week_subset_rows:
  "week_subset =
     [(0, decode_row (derive_row (trip_at 0))), (1, decode_row (derive_row (trip_at 86400))),
      (2, decode_row (derive_row (trip_at 172800))), (3, decode_row (derive_row (trip_at 259200))),
      (4, decode_row (derive_row (trip_at 345600))), (5, decode_row (derive_row (trip_at 432000))),
      (6, decode_row (derive_row (trip_at 518400)))]"
  by (simp add: week_subset_def load_data_one_week decode_payment_def filtered_def mask_rows_def
      trip_at_derived cell_ge_def cell_le_def)

lemma week_subset_days:
  "map (\<lambda>(i, r). pickup_day r) week_subset =
     [Some 3, Some 4, Some 5, Some 6, Some 0, Some 1, Some 2]"
  by (simp add: week_subset_rows trip_at_derived)

theorem bar_pivot_rows_are_hours_present_witness:
  "map (\<lambda>(i, r). pickup_day r) week_subset =
     [Some 3, Some 4, Some 5, Some 6, Some 0, Some 1, Some 2] \<and>
   bar_pivot week_subset = Inr [(0, [1, 1, 1, 1, 1, 1, 1])]"
proof -
  have "\<exists>(i, r) \<in> set week_subset. pickup_day r = Some d" if "d < 7" for d
  proof -
    from that have "d \<in> {0, 1, 2, 3, 4, 5, 6}" by auto
    then have "Some d \<in> set (map (\<lambda>(i, r). pickup_day r) week_subset)"
      unfolding week_subset_days by auto
    then obtain x where x: "x \<in> set week_subset"
      and d: "(case x of (i, r) \<Rightarrow> pickup_day r) = Some d"
      by (auto simp: image_iff)
    from d have "case x of (i, r) \<Rightarrow> pickup_day r = Some d"
      by (simp add: case_prod_unfold)
    with x show ?thesis by (rule rev_bexI)
  qed
  then have days: "\<forall>d<7. \<exists>(i, r) \<in> set week_subset. pickup_day r = Some d" by blast
  have upt7: "[0..<7] = [0, 1, 2, 3, 4, 5, 6 :: nat]" by code_simp
  have rhs: "map (\<lambda>h. (h, map (\<lambda>d. length (filter (\<lambda>(i, r). pickup_day r = Some d \<and>
                                                       pickup_hour r = Some h) week_subset)) [0..<7]))
              (sort (remdups (List.map_filter (\<lambda>(i, r). pickup_hour r) week_subset)))
           = [(0, [1, 1, 1, 1, 1, 1, 1])]"
    unfolding upt7 by (simp add: week_subset_rows trip_at_derived map_filter_def)
  from bar_pivot_rows_are_hours_present [OF week_subset_def days]
  have "bar_pivot week_subset = Inr [(0, [1, 1, 1, 1, 1, 1, 1])]"
    unfolding rhs .
  with week_subset_days show ?thesis by (intro conjI)
qed

text \<open>
  Claim C2 as stated fails on that subset: all seven days occur in it and every trip
  is in hour 0, and the table has the single row of hour 0, not 24 rows.
\<close>

theorem bar_pivot_one_hour_one_row:
  "bar_pivot week_subset = Inr [(0, [1, 1, 1, 1, 1, 1, 1])] \<and>
   map_sum id length (bar_pivot week_subset) \<noteq> Inr 24"
  by code_simp

text \<open>
  Where a day of the week has no trip in the subset, the selection of the seven
  columns raises KeyError; here the date range leaves out the seventh day.
\<close>

lemma bar_pivot_missing_day:
  "bar_pivot (filtered (decode_payment (load_data one_week)) (0, 5) (0, 23) [''Credit Card''])
     = Inl KeyError"
  by code_simp

section \<open>What the statements change\<close>

lemma truncate_decode_row: "trip.truncate (decode_row r) = r"
  by (simp add: decode_row_def trip.defs named_trip.defs)

lemma decode_payment_drop_column:
  "map (\<lambda>(i, r). (i, trip.truncate r)) (decode_payment f) = f"
  by (induction f) (auto simp: decode_payment_def truncate_decode_row)

lemma env_after_decode:
  "assign_payment_name (call_load_data rows) =
     \<lparr>heap = [Loaded (load_data rows), Named (decode_payment (load_data rows))],
      df_ref = 1, filtered_ref = None\<rparr>"
  by (simp add: assign_payment_name_def call_load_data_def df_object_def)

lemma env_after_filter:
  "assign_filtered dr hr po (assign_payment_name (call_load_data rows)) =
     Inr \<lparr>heap = [Loaded (load_data rows), Named (decode_payment (load_data rows)),
                 Named (filtered (decode_payment (load_data rows)) dr hr po)],
          df_ref = 1, filtered_ref = Some 2\<rparr>"
  by (simp add: env_after_decode assign_filtered_def df_object_def)

lemma env_after_day_of_week:
  "assign_day_of_week
     \<lparr>heap = [Loaded (load_data rows), Named (decode_payment (load_data rows)),
              Named (filtered (decode_payment (load_data rows)) dr hr po)],
      df_ref = 1, filtered_ref = Some 2\<rparr> =
     Inr \<lparr>heap = [Loaded (load_data rows), Named (decode_payment (load_data rows)),
                 WithDay (with_day_of_week (filtered (decode_payment (load_data rows)) dr hr po))],
          df_ref = 1, filtered_ref = Some 2\<rparr>"
  by (simp add: assign_day_of_week_def)

text \<open>
  Claim C5, amended. The value \<open>load_data\<close> returned, kept by the cache, is
  the same object with the same content after every statement. The copy \<open>df\<close>
  names is changed once, in place, by the payment-name statement of lines 62-63: it
  gains the column \<open>payment_name\<close>, and without that column it is the clean
  dataset as before. After that statement \<open>df\<close> is not changed: the filter puts
  the working subset into a new object, and the day-of-week statement of line 154
  writes into that new object. The chart tables are functions of the frames and write
  to no object.
\<close>

theorem script_changes_df_only_by_payment_name:
  "\<exists>e2 e3.
     assign_filtered date_range hour_range payment_options
       (assign_payment_name (call_load_data rows)) = Inr e2 \<and>
     assign_day_of_week e2 = Inr e3 \<and>
     heap (call_load_data rows) ! cache_ref = Loaded (load_data rows) \<and>
     heap (assign_payment_name (call_load_data rows)) ! cache_ref = Loaded (load_data rows) \<and>
     heap e2 ! cache_ref = Loaded (load_data rows) \<and>
     heap e3 ! cache_ref = Loaded (load_data rows) \<and>
     df_object (assign_payment_name (call_load_data rows))
       = Named (decode_payment (load_data rows)) \<and>
     map (\<lambda>(i, r). (i, trip.truncate r)) (decode_payment (load_data rows)) = load_data rows \<and>
     df_object e2 = Named (decode_payment (load_data rows)) \<and>
     df_object e3 = Named (decode_payment (load_data rows)) \<and>
     filtered_ref e2 = Some 2 \<and> df_ref e2 = 1 \<and>
     heap e2 ! 2 = Named (filtered (decode_payment (load_data rows))
                            date_range hour_range payment_options) \<and>
     filtered_ref e3 = Some 2 \<and> df_ref e3 = 1 \<and>
     heap e3 ! 2 = WithDay (with_day_of_week (filtered (decode_payment (load_data rows))
                              date_range hour_range payment_options))"
proof -
  let ?clean = "load_data rows"
  let ?df = "decode_payment ?clean"
  let ?sub = "filtered ?df date_range hour_range payment_options"
  let ?e2 = "\<lparr>heap = [Loaded ?clean, Named ?df, Named ?sub], df_ref = 1, filtered_ref = Some 2\<rparr>"
  let ?e3 = "\<lparr>heap = [Loaded ?clean, Named ?df, WithDay (with_day_of_week ?sub)],
              df_ref = 1, filtered_ref = Some 2\<rparr>"
  have "assign_filtered date_range hour_range payment_options
          (assign_payment_name (call_load_data rows)) = Inr ?e2"
    by (rule env_after_filter)
  moreover have "assign_day_of_week ?e2 = Inr ?e3"
    by (rule env_after_day_of_week)
  moreover have "heap (call_load_data rows) ! cache_ref = Loaded ?clean"
    by (simp add: call_load_data_def cache_ref_def)
  moreover have "heap (assign_payment_name (call_load_data rows)) ! cache_ref = Loaded ?clean"
    by (simp add: env_after_decode cache_ref_def)
  moreover have "heap ?e2 ! cache_ref = Loaded ?clean" "heap ?e3 ! cache_ref = Loaded ?clean"
    by (simp_all add: cache_ref_def)
  moreover have "df_object (assign_payment_name (call_load_data rows)) = Named ?df"
    by (simp add: env_after_decode df_object_def)
  moreover have "map (\<lambda>(i, r). (i, trip.truncate r)) ?df = ?clean"
    by (rule decode_payment_drop_column)
  moreover have "df_object ?e2 = Named ?df" "df_object ?e3 = Named ?df"
    by (simp_all add: df_object_def)
  moreover have "filtered_ref ?e2 = Some 2" "df_ref ?e2 = 1" "heap ?e2 ! 2 = Named ?sub"
    "filtered_ref ?e3 = Some 2" "df_ref ?e3 = 1" "heap ?e3 ! 2 = WithDay (with_day_of_week ?sub)"
    by simp_all
  ultimately show ?thesis by blast
qed

text \<open>
  Claim C5 as stated fails at the payment-name statement: the object \<open>df\<close>
  names is not the same before and after it.
\<close>

theorem payment_name_changes_df:
  "df_object (call_load_data [trip_at 0]) = Loaded [(0, derive_row (trip_at 0))] \<and>
   df_object (assign_payment_name (call_load_data [trip_at 0]))
     = Named [(0, decode_row (derive_row (trip_at 0)))] \<and>
   df_object (assign_payment_name (call_load_data [trip_at 0]))
     \<noteq> df_object (call_load_data [trip_at 0])"
proof -
  have "df_object (call_load_data [trip_at 0]) = Loaded [(0, derive_row (trip_at 0))]"
    by (simp add: df_object_def call_load_data_def load_data_one_trip)
  moreover have "df_object (assign_payment_name (call_load_data [trip_at 0]))
     = Named [(0, decode_row (derive_row (trip_at 0)))]"
    by (simp add: env_after_decode df_object_def load_data_one_trip decode_payment_def)
  ultimately show ?thesis by simp
qed

end
